theory Spec2Isabelle
  imports Main "HOL-Library.Word"
begin

section \<open>Lua source chunking (lua_embedder.py)\<close>

text \<open>
  The chunk extractor of \<^verbatim>\<open>lua_embedder.py\<close>: \<^verbatim>\<open>chunk_lua_file\<close> with its helpers
  \<^verbatim>\<open>extract_node_text\<close>, \<^verbatim>\<open>get_node_line_range\<close> and \<^verbatim>\<open>get_node_metadata\<close>.
  Reading the file and running the parser are effects outside the extractor; the model takes
  their results, the byte buffer and the root node of the syntax tree, as arguments. The one
  exception the extractor itself can raise is the decode error of a strict
  \<^verbatim>\<open>decode('utf-8')\<close>; it is the \<open>Inl\<close> result of every function that can raise it.
\<close>

subsection \<open>Bytes, text and decoding\<close>

type_synonym byte = "8 word"

text \<open>A Python \<^verbatim>\<open>str\<close> obtained by decoding is a sequence of Unicode code points.\<close>

type_synonym str = "nat list"

datatype error = UnicodeDecodeError

text \<open>
  Python's slice \<^verbatim>\<open>bs[a:b]\<close> for non-negative indices: both ends are clamped to the length
  and the slice is empty when \<open>b \<le> a\<close>.
\<close>

definition slice :: "'a list \<Rightarrow> nat \<Rightarrow> nat \<Rightarrow> 'a list" where
  "slice bs a b = take (b - a) (drop a bs)"

definition is_continuation :: "byte \<Rightarrow> bool" where
  "is_continuation b = (0x80 \<le> b \<and> b < 0xC0)"

text \<open>
  One step of the UTF-8 decoder behind \<^verbatim>\<open>bytes.decode('utf-8')\<close>: at the head of the
  remaining input it finds a scalar value and the number of bytes it takes, an invalid sequence
  and the number of bytes the error covers, or an incomplete sequence that runs into the end of
  the data. Overlong forms, surrogates and values above U+10FFFF are invalid.
\<close>

datatype utf8_step = Scalar nat nat | Invalid nat | Truncated

fun utf8_next :: "byte list \<Rightarrow> utf8_step" where
  "utf8_next [] = Truncated"
| "utf8_next (ch # s) =
    (if ch < 0x80 then Scalar (unat ch) 1
     else if ch < 0xE0 then
       (if ch < 0xC2 then Invalid 1
        else (case s of
            [] \<Rightarrow> Truncated
          | ch2 # _ \<Rightarrow>
              if \<not> is_continuation ch2 then Invalid 1
              else Scalar ((unat ch - 0xC0) * 64 + (unat ch2 - 0x80)) 2))
     else if ch < 0xF0 then
       (case s of
          [] \<Rightarrow> Truncated
        | ch2 # s2 \<Rightarrow>
            if \<not> is_continuation ch2 \<or> (if ch2 < 0xA0 then ch = 0xE0 else ch = 0xED)
            then Invalid 1
            else (case s2 of
                [] \<Rightarrow> Truncated
              | ch3 # _ \<Rightarrow>
                  if \<not> is_continuation ch3 then Invalid 2
                  else Scalar ((unat ch - 0xE0) * 4096 + (unat ch2 - 0x80) * 64
                               + (unat ch3 - 0x80)) 3))
     else if ch < 0xF5 then
       (case s of
          [] \<Rightarrow> Truncated
        | ch2 # s2 \<Rightarrow>
            if \<not> is_continuation ch2 \<or> (if ch2 < 0x90 then ch = 0xF0 else ch = 0xF4)
            then Invalid 1
            else (case s2 of
                [] \<Rightarrow> Truncated
              | ch3 # s3 \<Rightarrow>
                  if \<not> is_continuation ch3 then Invalid 2
                  else (case s3 of
                      [] \<Rightarrow> Truncated
                    | ch4 # _ \<Rightarrow>
                        if \<not> is_continuation ch4 then Invalid 3
                        else Scalar ((unat ch - 0xF0) * 262144 + (unat ch2 - 0x80) * 4096
                                     + (unat ch3 - 0x80) * 64 + (unat ch4 - 0x80)) 4)))
     else Invalid 1)"

text \<open>\<^verbatim>\<open>bs.decode('utf-8')\<close>: strict, the first invalid or incomplete sequence raises.\<close>

fun utf8_decode :: "byte list \<Rightarrow> error + str" where
  "utf8_decode [] = Inr []"
| "utf8_decode (ch # s) =
    (case utf8_next (ch # s) of
       Scalar c k \<Rightarrow>
         (case utf8_decode (drop (k - 1) s) of
            Inl e \<Rightarrow> Inl e
          | Inr cs \<Rightarrow> Inr (c # cs))
     | Invalid k \<Rightarrow> Inl UnicodeDecodeError
     | Truncated \<Rightarrow> Inl UnicodeDecodeError)"

text \<open>
  \<^verbatim>\<open>bs.decode('utf-8', errors='replace')\<close>: every error yields one U+FFFD and decoding
  resumes after the bytes the error covers; an incomplete sequence at the end covers the rest.
\<close>

fun utf8_decode_replace :: "byte list \<Rightarrow> str" where
  "utf8_decode_replace [] = []"
| "utf8_decode_replace (ch # s) =
    (case utf8_next (ch # s) of
       Scalar c k \<Rightarrow> c # utf8_decode_replace (drop (k - 1) s)
     | Invalid k \<Rightarrow> 0xFFFD # utf8_decode_replace (drop (k - 1) s)
     | Truncated \<Rightarrow> [0xFFFD])"

text \<open>The code points \<^verbatim>\<open>str.isspace\<close> accepts, which \<^verbatim>\<open>str.strip()\<close> removes at both ends.\<close>

definition is_space :: "nat \<Rightarrow> bool" where
  "is_space c =
    ((0x09 \<le> c \<and> c \<le> 0x0D) \<or> (0x1C \<le> c \<and> c \<le> 0x20) \<or> c = 0x85 \<or> c = 0xA0
     \<or> c = 0x1680 \<or> (0x2000 \<le> c \<and> c \<le> 0x200A) \<or> c = 0x2028 \<or> c = 0x2029
     \<or> c = 0x202F \<or> c = 0x205F \<or> c = 0x3000)"

definition strip :: "str \<Rightarrow> str" where
  "strip t = rev (dropWhile is_space (rev (dropWhile is_space t)))"

subsection \<open>Syntax nodes and chunks\<close>

text \<open>
  A node of the parser's syntax tree, read-only input: type tag, byte span, start and end
  point (row, column; rows count from 0) and children.
\<close>

datatype node =
  Node (ntype: string) (start_byte: nat) (end_byte: nat)
       (start_point: "nat \<times> nat") (end_point: "nat \<times> nat") (children: "node list")

text \<open>
  Values stored in a chunk's metadata dict: the node's type tag, a decoded name, or a list of
  decoded names.
\<close>

datatype meta_value = Tag string | Str str | StrList "str list"

text \<open>The chunk dict; the key \<^verbatim>\<open>id\<close> is the field \<open>chunk_id\<close>.\<close>

record chunk =
  chunk_id :: nat
  file_path :: string
  chunk_type :: string
  content :: str
  metadata :: "string \<rightharpoonup> meta_value"
  line_start :: nat
  line_end :: nat
  parent_id :: "nat option"

definition extract_node_text :: "node \<Rightarrow> byte list \<Rightarrow> error + str" where
  "extract_node_text n source_bytes =
     utf8_decode (slice source_bytes (start_byte n) (end_byte n))"

definition get_node_line_range :: "node \<Rightarrow> nat \<times> nat" where
  "get_node_line_range n = (fst (start_point n) + 1, fst (end_point n) + 1)"

text \<open>The loop over the children of a function definition: the first name child wins.\<close>

fun first_name :: "node list \<Rightarrow> byte list \<Rightarrow> error + str option" where
  "first_name [] source_bytes = Inr None"
| "first_name (child # rest) source_bytes =
    (if ntype child = ''name'' then
       (case extract_node_text child source_bytes of
          Inl e \<Rightarrow> Inl e
        | Inr t \<Rightarrow> Inr (Some t))
     else first_name rest source_bytes)"

text \<open>The inner and outer loops of a variable declaration, appending to \<open>names\<close>.\<close>

fun collect_identifiers :: "node list \<Rightarrow> byte list \<Rightarrow> str list \<Rightarrow> error + str list" where
  "collect_identifiers [] source_bytes names = Inr names"
| "collect_identifiers (name_node # rest) source_bytes names =
    (if ntype name_node = ''identifier'' then
       (case extract_node_text name_node source_bytes of
          Inl e \<Rightarrow> Inl e
        | Inr t \<Rightarrow> collect_identifiers rest source_bytes (names @ [t]))
     else collect_identifiers rest source_bytes names)"

fun collect_names :: "node list \<Rightarrow> byte list \<Rightarrow> str list \<Rightarrow> error + str list" where
  "collect_names [] source_bytes names = Inr names"
| "collect_names (child # rest) source_bytes names =
    (if ntype child = ''variable_list'' then
       (case collect_identifiers (children child) source_bytes names of
          Inl e \<Rightarrow> Inl e
        | Inr names' \<Rightarrow> collect_names rest source_bytes names')
     else collect_names rest source_bytes names)"

definition get_node_metadata :: "node \<Rightarrow> byte list \<Rightarrow> error + (string \<rightharpoonup> meta_value)" where
  "get_node_metadata n source_bytes =
    (let metadata = [''node_type'' \<mapsto> Tag (ntype n)] in
     if ntype n = ''function_definition'' then
       (case first_name (children n) source_bytes of
          Inl e \<Rightarrow> Inl e
        | Inr None \<Rightarrow> Inr metadata
        | Inr (Some t) \<Rightarrow> Inr (metadata(''name'' \<mapsto> Str t)))
     else if ntype n = ''variable_declaration'' then
       (case collect_names (children n) source_bytes [] of
          Inl e \<Rightarrow> Inl e
        | Inr names \<Rightarrow>
            if names \<noteq> [] then Inr (metadata(''names'' \<mapsto> StrList names))
            else Inr metadata)
     else Inr metadata)"

definition interesting_node_types :: "string list" where
  "interesting_node_types =
    [''function_definition'', ''table_constructor'', ''variable_declaration'',
     ''assignment_statement'', ''comment'', ''if_statement'', ''for_statement'',
     ''while_statement'', ''repeat_statement'', ''do_statement'', ''local_function'']"

text \<open>
  The closure \<^verbatim>\<open>process_node\<close>: the list \<open>chunks\<close> it appends to is passed in and
  returned, next to the id it returns (\<open>None\<close> when no chunk was made).
\<close>

definition process_node ::
  "string \<Rightarrow> byte list \<Rightarrow> node \<Rightarrow> nat option \<Rightarrow> chunk list \<Rightarrow> error + (chunk list \<times> nat option)" where
  "process_node path source_bytes n parent chunks =
    (if ntype n \<in> set interesting_node_types then
       (case extract_node_text n source_bytes of
          Inl e \<Rightarrow> Inl e
        | Inr t \<Rightarrow>
            (case get_node_line_range n of (ls, le) \<Rightarrow>
               if length (strip t) < 5 then Inr (chunks, None)
               else
                 (let cid = length chunks + 1 in
                  case get_node_metadata n source_bytes of
                    Inl e \<Rightarrow> Inl e
                  | Inr md \<Rightarrow>
                      Inr (chunks @
                           [\<lparr>chunk_id = cid, file_path = path, chunk_type = ntype n,
                             content = t, metadata = md, line_start = ls, line_end = le,
                             parent_id = parent\<rparr>],
                           Some cid))))
     else Inr (chunks, None))"

text \<open>The loop over the root's direct children; the id \<^verbatim>\<open>process_node\<close> returns is dropped.\<close>

fun process_children ::
  "string \<Rightarrow> byte list \<Rightarrow> node list \<Rightarrow> chunk list \<Rightarrow> error + chunk list" where
  "process_children path source_bytes [] chunks = Inr chunks"
| "process_children path source_bytes (child # rest) chunks =
    (case process_node path source_bytes child None chunks of
       Inl e \<Rightarrow> Inl e
     | Inr (chunks', _) \<Rightarrow> process_children path source_bytes rest chunks')"

definition file_chunk :: "string \<Rightarrow> byte list \<Rightarrow> node \<Rightarrow> chunk" where
  "file_chunk path source_bytes root_node =
     \<lparr>chunk_id = 1, file_path = path, chunk_type = ''file'',
      content = utf8_decode_replace source_bytes,
      metadata = [''node_type'' \<mapsto> Tag ''file''],
      line_start = 1, line_end = fst (end_point root_node) + 1, parent_id = None\<rparr>"

definition chunk_lua_file :: "string \<Rightarrow> byte list \<Rightarrow> node \<Rightarrow> error + chunk list" where
  "chunk_lua_file path source_bytes root_node =
    (case process_children path source_bytes (children root_node) [] of
       Inl e \<Rightarrow> Inl e
     | Inr chunks \<Rightarrow>
         if chunks = [] then Inr (chunks @ [file_chunk path source_bytes root_node])
         else Inr chunks)"

subsection \<open>Predicates on the input\<close>

text \<open>
  A top-level child qualifies when its type is on the allow-list and its decoded, stripped text
  has at least 5 characters: the children \<^verbatim>\<open>process_node\<close> turns into chunks.
\<close>

definition qualifies :: "byte list \<Rightarrow> node \<Rightarrow> bool" where
  "qualifies source_bytes n =
    (ntype n \<in> set interesting_node_types \<and>
     (case extract_node_text n source_bytes of
        Inl e \<Rightarrow> False
      | Inr t \<Rightarrow> 5 \<le> length (strip t)))"

text \<open>
  \<^verbatim>\<open>process_node\<close> raises no decode error on the node: its span decodes and, when it passes
  the size filter, so do the spans its metadata reads.
\<close>

definition node_decodes :: "byte list \<Rightarrow> node \<Rightarrow> bool" where
  "node_decodes source_bytes n =
    (if ntype n \<in> set interesting_node_types then
       (case extract_node_text n source_bytes of
          Inl e \<Rightarrow> False
        | Inr t \<Rightarrow>
            length (strip t) < 5 \<or>
            (case get_node_metadata n source_bytes of Inl e \<Rightarrow> False | Inr md \<Rightarrow> True))
     else True)"

text \<open>The chunk \<open>c\<close> carries what \<^verbatim>\<open>process_node\<close> stores for the node \<open>n\<close>, id apart.\<close>

definition derived :: "string \<Rightarrow> byte list \<Rightarrow> node \<Rightarrow> chunk \<Rightarrow> bool" where
  "derived path source_bytes n c =
    (file_path c = path \<and> chunk_type c = ntype n \<and>
     extract_node_text n source_bytes = Inr (content c) \<and>
     get_node_metadata n source_bytes = Inr (metadata c) \<and>
     line_start c = fst (start_point n) + 1 \<and> line_end c = fst (end_point n) + 1 \<and>
     parent_id c = None)"

subsection \<open>Literals\<close>

text \<open>
  An ASCII bytes literal \<^verbatim>\<open>b'...'\<close> and an ASCII string literal \<^verbatim>\<open>'...'\<close>, for writing
  concrete files and the text expected from them.
\<close>

definition bytes_of :: "string \<Rightarrow> byte list" where
  "bytes_of s = map of_char s"

definition str_of :: "string \<Rightarrow> str" where
  "str_of s = map of_char s"

subsection \<open>Example inputs\<close>

text \<open>
  A four-line file, \<^verbatim>\<open>-- setup\<close>, \<^verbatim>\<open>local x = 1\<close>, \<^verbatim>\<open>function f() end\<close>, \<^verbatim>\<open>--x\<close>, with a
  syntax tree in the vocabulary of the allow-list, and the chunks expected from it.
\<close>

definition demo_src :: "byte list" where
  "demo_src = bytes_of ''-- setup\<newline>local x = 1\<newline>function f() end\<newline>--x''"

definition demo_root :: node where
  "demo_root =
    Node ''chunk'' 0 41 (0, 0) (3, 3)
      [Node ''comment'' 0 8 (0, 0) (0, 8) [],
       Node ''variable_declaration'' 9 20 (1, 0) (1, 11)
         [Node ''local'' 9 14 (1, 0) (1, 5) [],
          Node ''variable_list'' 15 16 (1, 6) (1, 7) [Node ''identifier'' 15 16 (1, 6) (1, 7) []],
          Node ''='' 17 18 (1, 8) (1, 9) [],
          Node ''expression_list'' 19 20 (1, 10) (1, 11) []],
       Node ''function_definition'' 21 37 (2, 0) (2, 16)
         [Node ''function'' 21 29 (2, 0) (2, 8) [],
          Node ''name'' 30 31 (2, 9) (2, 10) [],
          Node ''parameters'' 31 33 (2, 10) (2, 12) [],
          Node ''end'' 34 37 (2, 13) (2, 16) []],
       Node ''comment'' 38 41 (3, 0) (3, 3) []]"

definition demo_chunks :: "chunk list" where
  "demo_chunks =
    [\<lparr>chunk_id = 1, file_path = ''demo.lua'', chunk_type = ''comment'',
      content = str_of ''-- setup'', metadata = [''node_type'' \<mapsto> Tag ''comment''],
      line_start = 1, line_end = 1, parent_id = None\<rparr>,
     \<lparr>chunk_id = 2, file_path = ''demo.lua'', chunk_type = ''variable_declaration'',
      content = str_of ''local x = 1'',
      metadata = [''node_type'' \<mapsto> Tag ''variable_declaration'',
                  ''names'' \<mapsto> StrList [str_of ''x'']],
      line_start = 2, line_end = 2, parent_id = None\<rparr>,
     \<lparr>chunk_id = 3, file_path = ''demo.lua'', chunk_type = ''function_definition'',
      content = str_of ''function f() end'',
      metadata = [''node_type'' \<mapsto> Tag ''function_definition'', ''name'' \<mapsto> Str (str_of ''f'')],
      line_start = 3, line_end = 3, parent_id = None\<rparr>]"

text \<open>
  The one-line file \<^verbatim>\<open>local function foo() return 1 end\<close>, parsed to a single
  \<^verbatim>\<open>local_function\<close> node that has a \<^verbatim>\<open>name\<close> child over the bytes of \<^verbatim>\<open>foo\<close>, and
  the chunk the run returns for it.
\<close>

definition local_foo_src :: "byte list" where
  "local_foo_src = bytes_of ''local function foo() return 1 end''"

definition local_foo_node :: node where
  "local_foo_node =
    Node ''local_function'' 0 33 (0, 0) (0, 33)
      [Node ''local'' 0 5 (0, 0) (0, 5) [],
       Node ''function'' 6 14 (0, 6) (0, 14) [],
       Node ''name'' 15 18 (0, 15) (0, 18) [],
       Node ''parameters'' 18 20 (0, 18) (0, 20) [],
       Node ''return_statement'' 21 29 (0, 21) (0, 29) [],
       Node ''end'' 30 33 (0, 30) (0, 33) []]"

definition local_foo_root :: node where
  "local_foo_root = Node ''chunk'' 0 33 (0, 0) (0, 33) [local_foo_node]"

definition local_foo_chunk :: chunk where
  "local_foo_chunk =
    \<lparr>chunk_id = 1, file_path = ''foo.lua'', chunk_type = ''local_function'',
     content = str_of ''local function foo() return 1 end'',
     metadata = [''node_type'' \<mapsto> Tag ''local_function''],
     line_start = 1, line_end = 1, parent_id = None\<rparr>"

section \<open>Properties\<close>

subsection \<open>The traversal\<close>

lemma error_unique: "(e::error) = UnicodeDecodeError"
  by (cases e) simp

lemma process_node_skip:
  assumes "\<not> qualifies src n" and "process_node path src n parent chunks = Inr (chunks', r)"
  shows "chunks' = chunks \<and> r = None"
  using assms
  by (auto simp: process_node_def qualifies_def get_node_line_range_def Let_def
           split: if_splits sum.splits)

lemma process_node_keep:
  assumes "qualifies src n" and "process_node path src n None chunks = Inr (chunks', r)"
  shows "\<exists>c. chunks' = chunks @ [c] \<and> derived path src n c \<and> chunk_id c = length chunks + 1"
  using assms
  by (auto simp: process_node_def qualifies_def derived_def get_node_line_range_def Let_def
           split: if_splits sum.splits)

lemma process_children_chunks:
  "process_children path src ns acc = Inr out \<Longrightarrow>
   \<exists>new. out = acc @ new \<and>
         list_all2 (derived path src) (filter (qualifies src) ns) new \<and>
         map chunk_id new = [length acc + 1 ..< length acc + length new + 1]"
proof (induction ns arbitrary: acc)
  case Nil
  then show ?case by simp
next
  case (Cons n ns)
  from Cons.prems obtain acc' r where
    step: "process_node path src n None acc = Inr (acc', r)" and
    rest: "process_children path src ns acc' = Inr out"
    by (auto split: sum.splits)
  from Cons.IH [OF rest] obtain new' where
    out: "out = acc' @ new'" and
    rel: "list_all2 (derived path src) (filter (qualifies src) ns) new'" and
    ids: "map chunk_id new' = [length acc' + 1 ..< length acc' + length new' + 1]"
    by blast
  show ?case
  proof (cases "qualifies src n")
    case False
    with step have "acc' = acc" using process_node_skip by blast
    with out rel ids False show ?thesis by auto
  next
    case True
    with step obtain c where
      c: "acc' = acc @ [c]" "derived path src n c" "chunk_id c = length acc + 1"
      using process_node_keep by blast
    have "map chunk_id (c # new') = [length acc + 1 ..< length acc + length (c # new') + 1]"
      using c ids by (simp del: upt_Suc add: upt_conv_Cons)
    moreover have "list_all2 (derived path src) (filter (qualifies src) (n # ns)) (c # new')"
      using True c rel by simp
    moreover have "out = acc @ (c # new')" using out c by simp
    ultimately show ?thesis by blast
  qed
qed

lemma chunk_lua_file_cases:
  assumes "chunk_lua_file path src root = Inr cs"
  shows "(filter (qualifies src) (children root) = [] \<and> cs = [file_chunk path src root]) \<or>
         (filter (qualifies src) (children root) \<noteq> [] \<and>
          list_all2 (derived path src) (filter (qualifies src) (children root)) cs \<and>
          map chunk_id cs = [1 ..< length cs + 1])"
proof -
  from assms obtain out where
    run: "process_children path src (children root) [] = Inr out" and
    res: "cs = (if out = [] then [file_chunk path src root] else out)"
    by (auto simp: chunk_lua_file_def split: sum.splits if_splits)
  from process_children_chunks [OF run]
  have rel: "list_all2 (derived path src) (filter (qualifies src) (children root)) out"
    and ids: "map chunk_id out = [1 ..< length out + 1]"
    by auto
  show ?thesis
  proof (cases "out = []")
    case True
    with rel res show ?thesis by simp
  next
    case False
    with rel have "filter (qualifies src) (children root) \<noteq> []" by auto
    with False rel ids res show ?thesis by simp
  qed
qed

lemma process_node_fails:
  "\<not> node_decodes src n \<Longrightarrow> process_node path src n parent chunks = Inl UnicodeDecodeError"
  by (auto simp: node_decodes_def process_node_def get_node_line_range_def Let_def error_unique
           split: if_splits sum.splits)

lemma process_node_returns:
  "node_decodes src n \<Longrightarrow> \<exists>chunks' r. process_node path src n parent chunks = Inr (chunks', r)"
  by (auto simp: node_decodes_def process_node_def get_node_line_range_def Let_def
           split: if_splits sum.splits)

lemma process_children_fails:
  "n \<in> set ns \<Longrightarrow> \<not> node_decodes src n \<Longrightarrow>
   process_children path src ns acc = Inl UnicodeDecodeError"
proof (induction ns arbitrary: acc)
  case Nil
  then show ?case by simp
next
  case (Cons m ns)
  show ?case
  proof (cases "process_node path src m None acc")
    case (Inl e)
    then show ?thesis by (simp add: error_unique)
  next
    case (Inr p)
    with Cons.prems have "m \<noteq> n" using process_node_fails by fastforce
    with Cons Inr show ?thesis by (cases p) auto
  qed
qed

lemma process_children_returns:
  "\<forall>n\<in>set ns. node_decodes src n \<Longrightarrow> \<exists>out. process_children path src ns acc = Inr out"
proof (induction ns arbitrary: acc)
  case Nil
  then show ?case by simp
next
  case (Cons m ns)
  then obtain acc' r where "process_node path src m None acc = Inr (acc', r)"
    using process_node_returns by (metis list.set_intros(1))
  with Cons show ?case by simp
qed

lemma chunk_lua_file_returns:
  "\<forall>n\<in>set (children root). node_decodes src n \<Longrightarrow> \<exists>cs. chunk_lua_file path src root = Inr cs"
  using process_children_returns [of "children root" src path "[]"]
  by (auto simp: chunk_lua_file_def)

lemma chunk_lua_file_fails:
  "n \<in> set (children root) \<Longrightarrow> \<not> node_decodes src n \<Longrightarrow>
   chunk_lua_file path src root = Inl UnicodeDecodeError"
  by (simp add: chunk_lua_file_def process_children_fails)

lemma get_node_metadata_node_type:
  "get_node_metadata n src = Inr md \<Longrightarrow> md ''node_type'' = Some (Tag (ntype n))"
  by (auto simp: get_node_metadata_def Let_def split: if_splits sum.splits option.splits)

text \<open>The unfolding rules that evaluate a run on a concrete file.\<close>

lemmas run_defs =
  chunk_lua_file_def process_node_def interesting_node_types_def extract_node_text_def
  slice_def strip_def is_space_def get_node_metadata_def get_node_line_range_def
  is_continuation_def file_chunk_def bytes_of_def str_of_def qualifies_def node_decodes_def

lemma qualifies_not_file: "qualifies src n \<Longrightarrow> ntype n \<noteq> ''file''"
  by (auto simp: qualifies_def interesting_node_types_def)

lemma list_all2_source:
  "list_all2 P xs ys \<Longrightarrow> y \<in> set ys \<Longrightarrow> \<exists>x\<in>set xs. P x y"
  by (induction rule: list_all2_induct) auto

lemma chunk_lua_file_chunk:
  assumes "chunk_lua_file path src root = Inr cs" and "c \<in> set cs"
  shows "c = file_chunk path src root \<or>
         (\<exists>n\<in>set (children root). qualifies src n \<and> derived path src n c)"
proof -
  from chunk_lua_file_cases [OF assms(1)] show ?thesis
  proof
    assume "filter (qualifies src) (children root) = [] \<and> cs = [file_chunk path src root]"
    with assms(2) show ?thesis by simp
  next
    assume "filter (qualifies src) (children root) \<noteq> [] \<and>
            list_all2 (derived path src) (filter (qualifies src) (children root)) cs \<and>
            map chunk_id cs = [1 ..< length cs + 1]"
    then have "list_all2 (derived path src) (filter (qualifies src) (children root)) cs"
      by simp
    from list_all2_source [OF this assms(2)] show ?thesis by auto
  qed
qed

lemma node_chunk_not_file:
  assumes "chunk_lua_file path src root = Inr cs"
    and "filter (qualifies src) (children root) \<noteq> []" and "c \<in> set cs"
  shows "chunk_type c \<noteq> ''file''"
proof -
  from chunk_lua_file_cases [OF assms(1)] assms(2)
  have "list_all2 (derived path src) (filter (qualifies src) (children root)) cs" by simp
  from list_all2_source [OF this assms(3)]
  obtain n where "qualifies src n" "derived path src n c" by auto
  then show ?thesis using qualifies_not_file by (simp add: derived_def)
qed

lemma zero_qualifying_run:
  assumes dec: "\<forall>n\<in>set (children root). ntype n \<in> set interesting_node_types \<longrightarrow>
                  extract_node_text n src \<noteq> Inl UnicodeDecodeError"
    and none: "filter (qualifies src) (children root) = []"
  shows "chunk_lua_file path src root = Inr [file_chunk path src root]"
proof -
  have "node_decodes src n" if "n \<in> set (children root)" for n
  proof (cases "ntype n \<in> set interesting_node_types")
    case False
    then show ?thesis by (simp add: node_decodes_def)
  next
    case True
    with dec that obtain t where t: "extract_node_text n src = Inr t"
      by (cases "extract_node_text n src") (auto simp: error_unique)
    from none that have "\<not> qualifies src n" by (auto simp: filter_empty_conv)
    with True t have "length (strip t) < 5" by (simp add: qualifies_def)
    with True t show ?thesis by (simp add: node_decodes_def)
  qed
  then obtain cs where run: "chunk_lua_file path src root = Inr cs"
    using chunk_lua_file_returns by blast
  from chunk_lua_file_cases [OF run] none have "cs = [file_chunk path src root]" by simp
  with run show ?thesis by simp
qed

lemma undecodable_span_fails:
  assumes "n \<in> set (children root)" and "ntype n \<in> set interesting_node_types"
    and "utf8_decode (slice src (start_byte n) (end_byte n)) = Inl UnicodeDecodeError"
  shows "chunk_lua_file path src root = Inl UnicodeDecodeError"
proof -
  from assms(2,3) have "\<not> node_decodes src n"
    by (simp add: node_decodes_def extract_node_text_def)
  with assms(1) show ?thesis by (rule chunk_lua_file_fails)
qed

subsection \<open>Strict and lenient decoding\<close>

lemma utf8_decode_replace_valid: "utf8_decode bs = Inr t \<Longrightarrow> utf8_decode_replace bs = t"
proof (induction bs arbitrary: t rule: utf8_decode.induct)
  case 1
  then show ?case by simp
next
  case (2 ch s)
  then show ?case
    by (auto simp del: utf8_next.simps split: utf8_step.splits sum.splits)
qed

lemma utf8_decode_replace_invalid:
  "utf8_decode bs = Inl e \<Longrightarrow> 0xFFFD \<in> set (utf8_decode_replace bs)"
proof (induction bs rule: utf8_decode.induct)
  case 1
  then show ?case by simp
next
  case (2 ch s)
  then show ?case
    by (auto simp del: utf8_next.simps split: utf8_step.splits sum.splits)
qed

subsection \<open>The example file\<close>

lemma demo_run: "chunk_lua_file ''demo.lua'' demo_src demo_root = Inr demo_chunks"
  by (simp add: demo_src_def demo_root_def demo_chunks_def run_defs)

lemma demo_decodes: "\<forall>n\<in>set (children demo_root). node_decodes demo_src n"
  by (simp add: demo_src_def demo_root_def run_defs)

lemma demo_qualifying:
  "filter (qualifies demo_src) (children demo_root) = butlast (children demo_root)"
  by (simp add: demo_src_def demo_root_def run_defs)

section \<open>The claims\<close>

subsection \<open>The fallback chunk\<close>

text \<open>
  C1, as stated: whenever no top-level child is both allow-listed and past the size filter,
  extraction returns exactly the fallback chunk. It fails where an allow-listed child's span
  is not valid UTF-8: the file below is the comment \<^verbatim>\<open>--\<close> followed by four bytes
  \<^verbatim>\<open>0xFF\<close>; no child qualifies, and \<^verbatim>\<open>extract_node_text\<close> raises before the size filter
  is reached, so nothing is returned.
\<close>

theorem undecodable_child_no_fallback:
  "filter (qualifies [0x2D, 0x2D, 0xFF, 0xFF, 0xFF, 0xFF])
     (children (Node ''chunk'' 0 6 (0, 0) (0, 6) [Node ''comment'' 0 6 (0, 0) (0, 6) []])) = []
   \<and> chunk_lua_file ''a.lua'' [0x2D, 0x2D, 0xFF, 0xFF, 0xFF, 0xFF]
       (Node ''chunk'' 0 6 (0, 0) (0, 6) [Node ''comment'' 0 6 (0, 0) (0, 6) []]) =
     Inl UnicodeDecodeError"
  by (simp add: run_defs)

text \<open>
  C1, amended: when every allow-listed top-level child's span decodes strictly and no top-level
  child qualifies, extraction returns exactly one chunk, with id 1, type \<^verbatim>\<open>file\<close>, the
  leniently decoded buffer as content, metadata \<^verbatim>\<open>{node_type: file}\<close>, line range from 1 to
  the root's end row plus 1, and no parent.
\<close>

theorem no_qualifying_child_fallback:
  assumes "\<forall>n\<in>set (children root). ntype n \<in> set interesting_node_types \<longrightarrow>
             extract_node_text n src \<noteq> Inl UnicodeDecodeError"
    and "filter (qualifies src) (children root) = []"
  shows "chunk_lua_file path src root =
         Inr [\<lparr>chunk_id = 1, file_path = path, chunk_type = ''file'',
               content = utf8_decode_replace src,
               metadata = [''node_type'' \<mapsto> Tag ''file''],
               line_start = 1, line_end = fst (end_point root) + 1, parent_id = None\<rparr>]"
  using zero_qualifying_run [OF assms, of path] by (simp add: file_chunk_def)

theorem no_qualifying_child_fallback_witness:
  "chunk_lua_file ''a.lua'' (bytes_of ''--x'')
     (Node ''chunk'' 0 3 (0, 0) (0, 3) [Node ''comment'' 0 3 (0, 0) (0, 3) []]) =
   Inr [\<lparr>chunk_id = 1, file_path = ''a.lua'', chunk_type = ''file'',
         content = str_of ''--x'', metadata = [''node_type'' \<mapsto> Tag ''file''],
         line_start = 1, line_end = 1, parent_id = None\<rparr>]"
proof -
  let ?root = "Node ''chunk'' 0 3 (0, 0) (0, 3) [Node ''comment'' 0 3 (0, 0) (0, 3) []]"
  have dec: "\<forall>n\<in>set (children ?root). ntype n \<in> set interesting_node_types \<longrightarrow>
               extract_node_text n (bytes_of ''--x'') \<noteq> Inl UnicodeDecodeError"
    by (simp add: run_defs)
  have none: "filter (qualifies (bytes_of ''--x'')) (children ?root) = []"
    by (simp add: run_defs)
  have "utf8_decode_replace (bytes_of ''--x'') = str_of ''--x''"
    by (simp add: run_defs)
  with no_qualifying_child_fallback [OF dec none, of "''a.lua''"] show ?thesis by simp
qed

subsection \<open>Node-derived chunks\<close>

text \<open>
  C2, as stated: whenever at least one top-level child qualifies, the output has as many chunks
  as there are qualifying children. It fails where another allow-listed child does not decode:
  below the first comment qualifies and the second holds three bytes \<^verbatim>\<open>0xFF\<close>, and the run
  raises instead of returning one chunk.
\<close>

theorem undecodable_sibling_no_chunks:
  "filter (qualifies (bytes_of ''-- hello\<newline>--'' @ [0xFF, 0xFF, 0xFF]))
     (children (Node ''chunk'' 0 14 (0, 0) (1, 5)
        [Node ''comment'' 0 8 (0, 0) (0, 8) [], Node ''comment'' 9 14 (1, 0) (1, 5) []])) =
   [Node ''comment'' 0 8 (0, 0) (0, 8) []]
   \<and> chunk_lua_file ''a.lua'' (bytes_of ''-- hello\<newline>--'' @ [0xFF, 0xFF, 0xFF])
       (Node ''chunk'' 0 14 (0, 0) (1, 5)
          [Node ''comment'' 0 8 (0, 0) (0, 8) [], Node ''comment'' 9 14 (1, 0) (1, 5) []]) =
     Inl UnicodeDecodeError"
  by (simp add: run_defs)

text \<open>
  C2, amended: when \<^verbatim>\<open>process_node\<close> raises on no top-level child, extraction returns; if at
  least one child qualifies, the output has exactly one chunk per qualifying child and none of
  them is of type \<^verbatim>\<open>file\<close>; and in every case the output is either the fallback chunk alone
  or free of \<^verbatim>\<open>file\<close> chunks, never a mix.
\<close>

theorem qualifying_children_count:
  assumes dec: "\<forall>n\<in>set (children root). node_decodes src n"
  shows "\<exists>cs. chunk_lua_file path src root = Inr cs \<and>
           (filter (qualifies src) (children root) \<noteq> [] \<longrightarrow>
              length cs = length (filter (qualifies src) (children root)) \<and>
              (\<forall>c\<in>set cs. chunk_type c \<noteq> ''file'')) \<and>
           (cs = [file_chunk path src root] \<or> (\<forall>c\<in>set cs. chunk_type c \<noteq> ''file''))"
proof -
  from dec obtain cs where run: "chunk_lua_file path src root = Inr cs"
    using chunk_lua_file_returns by blast
  have len: "length cs = length (filter (qualifies src) (children root))"
    if "filter (qualifies src) (children root) \<noteq> []"
    using chunk_lua_file_cases [OF run] that by (auto dest: list_all2_lengthD)
  have nofile: "\<forall>c\<in>set cs. chunk_type c \<noteq> ''file''"
    if "filter (qualifies src) (children root) \<noteq> []"
    using node_chunk_not_file [OF run that] by blast
  have "cs = [file_chunk path src root] \<or> (\<forall>c\<in>set cs. chunk_type c \<noteq> ''file'')"
    using chunk_lua_file_cases [OF run] nofile by blast
  with run len nofile show ?thesis by blast
qed

theorem qualifying_children_count_witness:
  "chunk_lua_file ''demo.lua'' demo_src demo_root = Inr demo_chunks \<and>
   length (filter (qualifies demo_src) (children demo_root)) = 3 \<and>
   length demo_chunks = 3 \<and>
   list_all (\<lambda>c. chunk_type c \<noteq> ''file'') demo_chunks"
proof -
  from qualifying_children_count [OF demo_decodes, of "''demo.lua''"]
  obtain cs where run: "chunk_lua_file ''demo.lua'' demo_src demo_root = Inr cs"
    and props: "filter (qualifies demo_src) (children demo_root) \<noteq> [] \<longrightarrow>
              length cs = length (filter (qualifies demo_src) (children demo_root)) \<and>
              (\<forall>c\<in>set cs. chunk_type c \<noteq> ''file'')"
    by blast
  from run have cs: "cs = demo_chunks" by (simp add: demo_run)
  have q: "length (filter (qualifies demo_src) (children demo_root)) = 3"
    by (simp add: demo_qualifying) (simp add: demo_root_def)
  with props cs have "length demo_chunks = 3" "\<forall>c\<in>set demo_chunks. chunk_type c \<noteq> ''file''"
    by auto
  with q demo_run show ?thesis by (simp add: list_all_iff)
qed

text \<open>
  C3: the ids of the returned chunks are 1, 2, ... in output order: the chunk at 0-based
  position \<open>i\<close> has id \<open>i + 1\<close>.
\<close>

theorem chunk_ids_dense:
  assumes "chunk_lua_file path src root = Inr cs"
  shows "map chunk_id cs = [1 ..< length cs + 1] \<and> (\<forall>i<length cs. chunk_id (cs ! i) = i + 1)"
proof -
  have ids: "map chunk_id cs = [1 ..< length cs + 1]"
    using chunk_lua_file_cases [OF assms] by (auto simp: file_chunk_def)
  have "chunk_id (cs ! i) = i + 1" if "i < length cs" for i
  proof -
    from that have "chunk_id (cs ! i) = map chunk_id cs ! i" by simp
    also from that have "\<dots> = i + 1" by (simp only: ids) (simp del: upt_Suc)
    finally show ?thesis .
  qed
  with ids show ?thesis by blast
qed

theorem chunk_ids_dense_witness:
  "chunk_lua_file ''demo.lua'' demo_src demo_root = Inr demo_chunks \<and>
   map chunk_id demo_chunks = [1, 2, 3]"
proof -
  from chunk_ids_dense [OF demo_run]
  have "map chunk_id demo_chunks = [1 ..< length demo_chunks + 1]" by blast
  also have "length demo_chunks = 3" by (simp add: demo_chunks_def)
  finally have "map chunk_id demo_chunks = [1, 2, 3]" by (simp add: upt_rec)
  with demo_run show ?thesis by simp
qed

text \<open>
  C4: an allow-listed top-level node whose stripped text has fewer than 5 characters adds no
  chunk (\<^verbatim>\<open>process_node\<close> leaves the list as it is and returns no id), and every returned chunk
  other than the fallback \<^verbatim>\<open>file\<close> chunk has content of stripped length at least 5.
\<close>

theorem small_nodes_skipped:
  assumes "chunk_lua_file path src root = Inr cs"
  shows "(\<forall>n\<in>set (children root). ntype n \<in> set interesting_node_types \<longrightarrow>
            (\<forall>t. extract_node_text n src = Inr t \<longrightarrow> length (strip t) < 5 \<longrightarrow>
               (\<forall>chunks. process_node path src n None chunks = Inr (chunks, None)))) \<and>
         (\<forall>c\<in>set cs. chunk_type c \<noteq> ''file'' \<longrightarrow> 5 \<le> length (strip (content c)))"
proof -
  have skip: "process_node path src n None chunks = Inr (chunks, None)"
    if "ntype n \<in> set interesting_node_types" "extract_node_text n src = Inr t"
      "length (strip t) < 5" for n t chunks
    using that by (simp add: process_node_def get_node_line_range_def)
  have big: "5 \<le> length (strip (content c))" if "c \<in> set cs" "chunk_type c \<noteq> ''file''" for c
  proof -
    from chunk_lua_file_chunk [OF assms that(1)] that(2)
    obtain n where "qualifies src n" "derived path src n c"
      by (auto simp: file_chunk_def)
    then show ?thesis by (simp add: qualifies_def derived_def)
  qed
  from skip big show ?thesis by blast
qed

theorem small_nodes_skipped_witness:
  "chunk_lua_file ''demo.lua'' demo_src demo_root = Inr demo_chunks \<and>
   extract_node_text (Node ''comment'' 38 41 (3, 0) (3, 3) []) demo_src = Inr (str_of ''--x'') \<and>
   process_node ''demo.lua'' demo_src (Node ''comment'' 38 41 (3, 0) (3, 3) []) None demo_chunks =
     Inr (demo_chunks, None) \<and>
   list_all (\<lambda>c. 5 \<le> length (strip (content c))) demo_chunks"
proof -
  let ?n = "Node ''comment'' 38 41 (3, 0) (3, 3) []"
  have n: "?n \<in> set (children demo_root)" "ntype ?n \<in> set interesting_node_types"
    by (simp_all add: demo_root_def interesting_node_types_def)
  have t: "extract_node_text ?n demo_src = Inr (str_of ''--x'')"
    by (simp add: demo_src_def run_defs)
  have small: "length (strip (str_of ''--x'')) < 5"
    by (simp add: run_defs)
  have nofile: "\<forall>c\<in>set demo_chunks. chunk_type c \<noteq> ''file''"
    by (simp add: demo_chunks_def)
  from small_nodes_skipped [OF demo_run] n t small nofile
  have "process_node ''demo.lua'' demo_src ?n None demo_chunks = Inr (demo_chunks, None)"
    and "\<forall>c\<in>set demo_chunks. 5 \<le> length (strip (content c))"
    by blast+
  with demo_run t show ?thesis by (simp add: list_all_iff)
qed

text \<open>
  C5: the returned chunks other than the fallback chunk pair up, in order, with the qualifying
  top-level children, and each one's content is the strict UTF-8 decoding of the buffer sliced
  at its node's byte span, unchanged.
\<close>

theorem content_is_decoded_span:
  assumes "chunk_lua_file path src root = Inr cs"
  shows "list_all2
           (\<lambda>n c. chunk_type c = ntype n \<and>
                  utf8_decode (slice src (start_byte n) (end_byte n)) = Inr (content c))
           (filter (qualifies src) (children root))
           (filter (\<lambda>c. chunk_type c \<noteq> ''file'') cs)"
proof -
  from chunk_lua_file_cases [OF assms] show ?thesis
  proof
    assume "filter (qualifies src) (children root) = [] \<and> cs = [file_chunk path src root]"
    then show ?thesis by (simp add: file_chunk_def)
  next
    assume node: "filter (qualifies src) (children root) \<noteq> [] \<and>
            list_all2 (derived path src) (filter (qualifies src) (children root)) cs \<and>
            map chunk_id cs = [1 ..< length cs + 1]"
    then have "\<forall>c\<in>set cs. chunk_type c \<noteq> ''file''"
      using node_chunk_not_file [OF assms] by blast
    then have keep: "filter (\<lambda>c. chunk_type c \<noteq> ''file'') cs = cs" by simp
    from node have "list_all2 (derived path src) (filter (qualifies src) (children root)) cs"
      by simp
    then have "list_all2
           (\<lambda>n c. chunk_type c = ntype n \<and>
                  utf8_decode (slice src (start_byte n) (end_byte n)) = Inr (content c))
           (filter (qualifies src) (children root)) cs"
      by (rule list_all2_mono) (simp add: derived_def extract_node_text_def)
    with keep show ?thesis by simp
  qed
qed

theorem content_is_decoded_span_witness:
  "chunk_lua_file ''demo.lua'' demo_src demo_root = Inr demo_chunks \<and>
   map content demo_chunks =
     [str_of ''-- setup'', str_of ''local x = 1'', str_of ''function f() end''] \<and>
   utf8_decode (slice demo_src 0 8) = Inr (str_of ''-- setup'') \<and>
   utf8_decode (slice demo_src 9 20) = Inr (str_of ''local x = 1'') \<and>
   utf8_decode (slice demo_src 21 37) = Inr (str_of ''function f() end'')"
proof -
  have c: "map content demo_chunks =
     [str_of ''-- setup'', str_of ''local x = 1'', str_of ''function f() end'']"
    and keep: "filter (\<lambda>c. chunk_type c \<noteq> ''file'') demo_chunks = demo_chunks"
    by (simp_all add: demo_chunks_def)
  from content_is_decoded_span [OF demo_run]
  have "list_all2
           (\<lambda>n c. chunk_type c = ntype n \<and>
                  utf8_decode (slice demo_src (start_byte n) (end_byte n)) = Inr (content c))
           (butlast (children demo_root)) demo_chunks"
    by (simp only: demo_qualifying keep)
  then have "utf8_decode (slice demo_src 0 8) = Inr (str_of ''-- setup'') \<and>
   utf8_decode (slice demo_src 9 20) = Inr (str_of ''local x = 1'') \<and>
   utf8_decode (slice demo_src 21 37) = Inr (str_of ''function f() end'')"
    by (simp add: demo_root_def demo_chunks_def)
  with demo_run c show ?thesis by simp
qed

subsection \<open>The local function scenario\<close>

text \<open>
  What the run does for the file \<^verbatim>\<open>local function foo() return 1 end\<close> whenever the root's
  only child is a \<^verbatim>\<open>local_function\<close> node over bytes 0 to 33 on row 0: one chunk, of that
  type, on line 1.
\<close>

lemma local_function_one_chunk:
  assumes "children root = [n]" and "ntype n = ''local_function''"
    and "start_byte n = 0" and "end_byte n = 33"
    and "fst (start_point n) = 0" and "fst (end_point n) = 0"
  shows "\<exists>c. chunk_lua_file path (bytes_of ''local function foo() return 1 end'') root = Inr [c] \<and>
           chunk_id c = 1 \<and> chunk_type c = ''local_function'' \<and>
           content c = str_of ''local function foo() return 1 end'' \<and>
           line_start c = 1 \<and> line_end c = 1 \<and> parent_id c = None"
proof -
  have decoded: "extract_node_text n (bytes_of ''local function foo() return 1 end'') =
        Inr (str_of ''local function foo() return 1 end'')"
    using assms(3,4) by (simp add: run_defs)
  have big: "\<not> length (strip (str_of ''local function foo() return 1 end'')) < 5"
    by (simp add: run_defs)
  obtain md where md: "get_node_metadata n (bytes_of ''local function foo() return 1 end'') =
        Inr md"
    using assms(2) by (simp add: get_node_metadata_def)
  have "process_node path (bytes_of ''local function foo() return 1 end'') n None [] =
        Inr ([\<lparr>chunk_id = 1, file_path = path, chunk_type = ''local_function'',
               content = str_of ''local function foo() return 1 end'',
               metadata = md, line_start = 1, line_end = 1, parent_id = None\<rparr>], Some 1)"
    unfolding process_node_def decoded using big md assms(2,5,6)
    by (simp add: interesting_node_types_def get_node_line_range_def)
  then show ?thesis
    using assms(1) by (simp add: chunk_lua_file_def)
qed

text \<open>
  C6: for the file \<^verbatim>\<open>local function foo() return 1 end\<close> the single chunk is a local function
  chunk on line 1 whose metadata has name \<^verbatim>\<open>foo\<close> when the tree exposes a name child. The code
  misses the name. On a tree whose \<^verbatim>\<open>local_function\<close> node has a \<^verbatim>\<open>name\<close> child over the
  bytes of \<^verbatim>\<open>foo\<close>, the run returns one \<^verbatim>\<open>local_function\<close> chunk on line 1 with no
  \<^verbatim>\<open>name\<close> in its metadata, although the scan of the children finds \<^verbatim>\<open>foo\<close>: the scan
  is run for \<^verbatim>\<open>function_definition\<close> nodes only, and the same children under that tag do
  give the name.
\<close>

theorem local_function_name_missing:
  "chunk_lua_file ''foo.lua'' local_foo_src local_foo_root = Inr [local_foo_chunk] \<and>
   chunk_type local_foo_chunk = ''local_function'' \<and>
   line_start local_foo_chunk = 1 \<and> line_end local_foo_chunk = 1 \<and>
   metadata local_foo_chunk ''name'' = None \<and>
   first_name (children local_foo_node) local_foo_src = Inr (Some (str_of ''foo'')) \<and>
   get_node_metadata
     (Node ''function_definition'' 0 33 (0, 0) (0, 33) (children local_foo_node)) local_foo_src =
     Inr [''node_type'' \<mapsto> Tag ''function_definition'', ''name'' \<mapsto> Str (str_of ''foo'')]"
  by (simp add: local_foo_src_def local_foo_root_def local_foo_node_def local_foo_chunk_def
        run_defs)

subsection \<open>Decode errors\<close>

text \<open>
  C7: an allow-listed top-level child whose byte span is not valid UTF-8 makes extraction fail
  with the decode error, whatever the other children are; on the fallback path the whole buffer
  is decoded leniently, so extraction returns the file chunk also when the buffer is not valid
  UTF-8, with U+FFFD in place of the invalid bytes.
\<close>

theorem strict_nodes_lenient_file:
  "(n \<in> set (children root) \<and> ntype n \<in> set interesting_node_types \<and>
    utf8_decode (slice src (start_byte n) (end_byte n)) = Inl UnicodeDecodeError \<longrightarrow>
      chunk_lua_file path src root = Inl UnicodeDecodeError) \<and>
   ((\<forall>m\<in>set (children root). ntype m \<in> set interesting_node_types \<longrightarrow>
        extract_node_text m src \<noteq> Inl UnicodeDecodeError) \<and>
    filter (qualifies src) (children root) = [] \<longrightarrow>
      (\<exists>c. chunk_lua_file path src root = Inr [c] \<and> content c = utf8_decode_replace src \<and>
           (utf8_decode src = Inl UnicodeDecodeError \<longrightarrow> 0xFFFD \<in> set (content c))))"
  using undecodable_span_fails [of n root src path]
    zero_qualifying_run [of root src path]
    utf8_decode_replace_invalid [of src UnicodeDecodeError]
  by (auto simp: file_chunk_def)

theorem strict_nodes_lenient_file_witness:
  "chunk_lua_file ''a.lua'' [0x2D, 0x2D, 0xFF, 0xFF, 0xFF, 0xFF]
     (Node ''chunk'' 0 6 (0, 0) (0, 6) [Node ''comment'' 0 6 (0, 0) (0, 6) []]) =
     Inl UnicodeDecodeError \<and>
   utf8_decode [0xFF, 0x41] = Inl UnicodeDecodeError \<and>
   chunk_lua_file ''b.lua'' [0xFF, 0x41]
     (Node ''chunk'' 0 2 (0, 0) (0, 2) [Node ''ERROR'' 0 2 (0, 0) (0, 2) []]) =
     Inr [\<lparr>chunk_id = 1, file_path = ''b.lua'', chunk_type = ''file'',
           content = [0xFFFD, 0x41], metadata = [''node_type'' \<mapsto> Tag ''file''],
           line_start = 1, line_end = 1, parent_id = None\<rparr>]"
proof -
  let ?src1 = "[0x2D, 0x2D, 0xFF, 0xFF, 0xFF, 0xFF] :: byte list"
  let ?n1 = "Node ''comment'' 0 6 (0, 0) (0, 6) []"
  let ?root1 = "Node ''chunk'' 0 6 (0, 0) (0, 6) [?n1]"
  let ?src2 = "[0xFF, 0x41] :: byte list"
  let ?root2 = "Node ''chunk'' 0 2 (0, 0) (0, 2) [Node ''ERROR'' 0 2 (0, 0) (0, 2) []]"
  have bad: "?n1 \<in> set (children ?root1) \<and> ntype ?n1 \<in> set interesting_node_types \<and>
    utf8_decode (slice ?src1 (start_byte ?n1) (end_byte ?n1)) = Inl UnicodeDecodeError"
    by (simp add: run_defs)
  have ok: "(\<forall>m\<in>set (children ?root2). ntype m \<in> set interesting_node_types \<longrightarrow>
        extract_node_text m ?src2 \<noteq> Inl UnicodeDecodeError) \<and>
    filter (qualifies ?src2) (children ?root2) = []"
    by (simp add: run_defs)
  have inv: "utf8_decode ?src2 = Inl UnicodeDecodeError"
    by (simp add: run_defs)
  from strict_nodes_lenient_file [of ?n1 ?root1 ?src1 "''a.lua''"] bad
  have first: "chunk_lua_file ''a.lua'' ?src1 ?root1 = Inl UnicodeDecodeError" by blast
  from strict_nodes_lenient_file [of ?n1 ?root2 ?src2 "''b.lua''"] ok
  obtain c where "chunk_lua_file ''b.lua'' ?src2 ?root2 = Inr [c]"
    by blast
  then have second: "chunk_lua_file ''b.lua'' ?src2 ?root2 =
     Inr [\<lparr>chunk_id = 1, file_path = ''b.lua'', chunk_type = ''file'',
           content = [0xFFFD, 0x41], metadata = [''node_type'' \<mapsto> Tag ''file''],
           line_start = 1, line_end = 1, parent_id = None\<rparr>]"
    by (simp add: run_defs)
  from first inv second show ?thesis by simp
qed

subsection \<open>Invariants of every returned chunk\<close>

text \<open>
  C8: when no top-level child ends on a row before the one it starts on, every returned chunk
  has line_start and line_end at least 1 and line_end not below line_start.
\<close>

theorem line_range_ordered:
  assumes "chunk_lua_file path src root = Inr cs"
    and "\<forall>n\<in>set (children root). fst (start_point n) \<le> fst (end_point n)"
  shows "\<forall>c\<in>set cs. 1 \<le> line_start c \<and> 1 \<le> line_end c \<and> line_start c \<le> line_end c"
proof
  fix c assume "c \<in> set cs"
  from chunk_lua_file_chunk [OF assms(1) this]
  show "1 \<le> line_start c \<and> 1 \<le> line_end c \<and> line_start c \<le> line_end c"
  proof
    assume "c = file_chunk path src root"
    then show ?thesis by (simp add: file_chunk_def)
  next
    assume "\<exists>n\<in>set (children root). qualifies src n \<and> derived path src n c"
    then obtain n where "n \<in> set (children root)" "derived path src n c" by blast
    with assms(2) show ?thesis by (auto simp: derived_def)
  qed
qed

theorem line_range_ordered_witness:
  "chunk_lua_file ''demo.lua'' demo_src demo_root = Inr demo_chunks \<and>
   list_all (\<lambda>n. fst (start_point n) \<le> fst (end_point n)) (children demo_root) \<and>
   list_all (\<lambda>c. 1 \<le> line_start c \<and> 1 \<le> line_end c \<and> line_start c \<le> line_end c) demo_chunks \<and>
   map (\<lambda>c. (line_start c, line_end c)) demo_chunks = [(1, 1), (2, 2), (3, 3)]"
proof -
  have wf: "\<forall>n\<in>set (children demo_root). fst (start_point n) \<le> fst (end_point n)"
    by (simp add: demo_root_def)
  have "map (\<lambda>c. (line_start c, line_end c)) demo_chunks = [(1, 1), (2, 2), (3, 3)]"
    by (simp add: demo_chunks_def)
  with line_range_ordered [OF demo_run wf] wf demo_run show ?thesis
    by (simp add: list_all_iff)
qed

text \<open>
  C9: every returned chunk, node-derived or fallback, has no parent id.
\<close>

theorem parent_id_null:
  assumes "chunk_lua_file path src root = Inr cs"
  shows "\<forall>c\<in>set cs. parent_id c = None"
proof
  fix c assume "c \<in> set cs"
  from chunk_lua_file_chunk [OF assms this] show "parent_id c = None"
    by (auto simp: file_chunk_def derived_def)
qed

theorem parent_id_null_witness:
  "chunk_lua_file ''demo.lua'' demo_src demo_root = Inr demo_chunks \<and>
   map parent_id demo_chunks = [None, None, None]"
proof -
  have "length demo_chunks = 3" by (simp add: demo_chunks_def)
  then have "demo_chunks = [demo_chunks ! 0, demo_chunks ! 1, demo_chunks ! 2]"
    by (simp add: demo_chunks_def)
  then have "map parent_id demo_chunks =
    [parent_id (demo_chunks ! 0), parent_id (demo_chunks ! 1), parent_id (demo_chunks ! 2)]"
    by (metis list.simps(8,9))
  moreover from parent_id_null [OF demo_run]
  have "parent_id (demo_chunks ! 0) = None" "parent_id (demo_chunks ! 1) = None"
    "parent_id (demo_chunks ! 2) = None"
    using \<open>length demo_chunks = 3\<close> by simp_all
  ultimately show ?thesis using demo_run by simp
qed

text \<open>
  C10: in every returned chunk the metadata maps \<^verbatim>\<open>node_type\<close> to the chunk's own chunk_type.
\<close>

theorem node_type_matches_chunk_type:
  assumes "chunk_lua_file path src root = Inr cs"
  shows "\<forall>c\<in>set cs. metadata c ''node_type'' = Some (Tag (chunk_type c))"
proof
  fix c assume "c \<in> set cs"
  from chunk_lua_file_chunk [OF assms this]
  show "metadata c ''node_type'' = Some (Tag (chunk_type c))"
    by (auto simp: file_chunk_def derived_def dest: get_node_metadata_node_type)
qed

theorem node_type_matches_chunk_type_witness:
  "chunk_lua_file ''demo.lua'' demo_src demo_root = Inr demo_chunks \<and>
   map (\<lambda>c. metadata c ''node_type'') demo_chunks =
     [Some (Tag ''comment''), Some (Tag ''variable_declaration''),
      Some (Tag ''function_definition'')] \<and>
   map chunk_type demo_chunks = [''comment'', ''variable_declaration'', ''function_definition'']"
proof -
  have t: "map chunk_type demo_chunks =
      [''comment'', ''variable_declaration'', ''function_definition'']"
    by (simp add: demo_chunks_def)
  from node_type_matches_chunk_type [OF demo_run]
  have "map (\<lambda>c. metadata c ''node_type'') demo_chunks = map (\<lambda>c. Some (Tag (chunk_type c))) demo_chunks"
    by simp
  also have "\<dots> = map (\<lambda>t. Some (Tag t)) (map chunk_type demo_chunks)" by simp
  finally have "map (\<lambda>c. metadata c ''node_type'') demo_chunks =
     [Some (Tag ''comment''), Some (Tag ''variable_declaration''),
      Some (Tag ''function_definition'')]"
    by (simp only: t) simp
  with demo_run t show ?thesis by simp
qed

end
